theory Spec2Isabelle
  imports Main
begin

section \<open>JavaScript strings and numbers\<close>

text \<open>
  Strings are lists of code units; the model covers text whose code units are below 256.
  The characters matched by the regular-expression class \<^verbatim>\<open>\s\<close>, removed by
  \<^verbatim>\<open>String.prototype.trim\<close> and skipped by \<^verbatim>\<open>parseInt\<close> are, in that range:
  tab, line feed, vertical tab, form feed, carriage return, space and no-break space.
\<close>

definition js_whitespace :: "char list" where
  "js_whitespace = [CHR 0x09, CHR 0x0A, CHR 0x0B, CHR 0x0C, CHR 0x0D, CHR 0x20, CHR 0xA0]"

definition is_space :: "char \<Rightarrow> bool" where
  "is_space c = (c \<in> set js_whitespace)"




text \<open>The value of a digit character in radix 16 (decimal digits are the first ten).\<close>

definition char_digit :: "char \<Rightarrow> nat option" where
  "char_digit c = map_of
     [(CHR ''0'', 0), (CHR ''1'', 1), (CHR ''2'', 2), (CHR ''3'', 3), (CHR ''4'', 4),
      (CHR ''5'', 5), (CHR ''6'', 6), (CHR ''7'', 7), (CHR ''8'', 8), (CHR ''9'', 9),
      (CHR ''a'', 10), (CHR ''b'', 11), (CHR ''c'', 12), (CHR ''d'', 13), (CHR ''e'', 14),
      (CHR ''f'', 15), (CHR ''A'', 10), (CHR ''B'', 11), (CHR ''C'', 12), (CHR ''D'', 13),
      (CHR ''E'', 14), (CHR ''F'', 15)] c"

definition radix_digit :: "nat \<Rightarrow> char \<Rightarrow> bool" where
  "radix_digit r c = (case char_digit c of None \<Rightarrow> False | Some d \<Rightarrow> d < r)"

definition digit_value :: "char \<Rightarrow> nat" where
  "digit_value c = (case char_digit c of None \<Rightarrow> 0 | Some d \<Rightarrow> d)"

text \<open>
  A number of the program that is an integer, infinite or \<^verbatim>\<open>NaN\<close>. Numbers are
  doubles: an integer magnitude is rounded to the nearest one that has 53 significant
  bits, a tie going to the even one, and a magnitude that rounds to \<open>2^1024\<close> or more,
  which takes more than 1024 bits, is infinite.
\<close>

datatype jsnum = NaN | Infinity bool | Fin int

fun bit_length :: "nat \<Rightarrow> nat" where
  "bit_length n = (if n = 0 then 0 else Suc (bit_length (n div 2)))"

declare bit_length.simps [simp del]

definition round_double :: "nat \<Rightarrow> nat option" where
  "round_double m =
     (let e = bit_length m - 53;
          q = m div 2 ^ e;
          r = m mod 2 ^ e;
          q' = (if 2 * r > 2 ^ e \<or> (2 * r = 2 ^ e \<and> odd q) then q + 1 else q);
          v = q' * 2 ^ e
      in if bit_length v > 1024 then None else Some v)"

text \<open>The number with the given sign (\<open>True\<close> is negative) and integer magnitude.\<close>

definition to_number :: "bool \<Rightarrow> nat \<Rightarrow> jsnum" where
  "to_number neg m =
     (case round_double m of
        None \<Rightarrow> Infinity neg
      | Some v \<Rightarrow> Fin (if neg then - int v else int v))"


definition num_less :: "jsnum \<Rightarrow> int \<Rightarrow> bool" where
  "num_less x k = (case x of NaN \<Rightarrow> False | Infinity neg \<Rightarrow> neg | Fin a \<Rightarrow> a < k)"

definition num_greater :: "jsnum \<Rightarrow> int \<Rightarrow> bool" where
  "num_greater x k = (case x of NaN \<Rightarrow> False | Infinity neg \<Rightarrow> \<not> neg | Fin a \<Rightarrow> a > k)"


text \<open>
  \<^verbatim>\<open>parseInt(s)\<close> with no radix: leading white space is skipped, one sign is read, a
  prefix \<^verbatim>\<open>0x\<close> or \<^verbatim>\<open>0X\<close> selects radix 16, and the longest run of digits is
  the value, as a double; with no digit the result is \<^verbatim>\<open>NaN\<close>.
\<close>

definition parseInt :: "string \<Rightarrow> jsnum" where
  "parseInt str =
     (let s = dropWhile is_space str;
          neg = (case s of [] \<Rightarrow> False | c # _ \<Rightarrow> c = CHR ''-'');
          s1 = (case s of [] \<Rightarrow> s | c # r \<Rightarrow> if c = CHR ''-'' \<or> c = CHR ''+'' then r else s);
          hex = (take 2 s1 = ''0x'' \<or> take 2 s1 = ''0X'');
          radix = (if hex then 16 else 10);
          s2 = (if hex then drop 2 s1 else s1);
          z = takeWhile (radix_digit radix) s2
      in if z = [] then NaN
         else to_number neg (foldl (\<lambda>a c. a * radix + digit_value c) 0 z))"

text \<open>
  \<^verbatim>\<open>parseInt(x)\<close> for a number \<open>x\<close> reads the text that \<^verbatim>\<open>String(x)\<close> prints. An
  integer below \<open>10^21\<close> in magnitude prints as digits that read back as the same number.
  From \<open>10^21\<close> on the text is in exponent notation, and what is read is its first digit:
  the first digit of the shortest decimal significand that rounds to the number, the
  nearest one when there are two. \<^verbatim>\<open>NaN\<close> and the infinities print no digit.
\<close>

fun num_digits :: "nat \<Rightarrow> nat" where
  "num_digits n = (if n < 10 then 1 else Suc (num_digits (n div 10)))"

declare num_digits.simps [simp del]

definition shortest_candidate :: "nat \<Rightarrow> nat \<Rightarrow> nat option" where
  "shortest_candidate n k =
     (let e = num_digits n - k;
          lo = n div 10 ^ e;
          hi = lo + 1;
          ok_lo = (round_double (lo * 10 ^ e) = Some n);
          ok_hi = (round_double (hi * 10 ^ e) = Some n)
      in if ok_lo \<and> ok_hi
         then (if n - lo * 10 ^ e < hi * 10 ^ e - n
                  \<or> (n - lo * 10 ^ e = hi * 10 ^ e - n \<and> even lo) then Some lo else Some hi)
         else if ok_lo then Some lo
         else if ok_hi then Some hi
         else None)"

fun first_candidate :: "nat \<Rightarrow> nat list \<Rightarrow> (nat \<times> nat) option" where
  "first_candidate n [] = None"
| "first_candidate n (k # ks) =
     (case shortest_candidate n k of
        None \<Rightarrow> first_candidate n ks
      | Some s \<Rightarrow> Some (k, s))"

definition lead_digit :: "nat \<Rightarrow> nat" where
  "lead_digit n =
     (case first_candidate n [1, 2, 3, 4, 5, 6, 7, 8, 9, 10, 11, 12, 13, 14, 15, 16, 17] of
        None \<Rightarrow> n div 10 ^ (num_digits n - 1)
      | Some (k, s) \<Rightarrow> if s = 10 ^ k then 1 else s div 10 ^ (k - 1))"

definition parseInt_num :: "jsnum \<Rightarrow> jsnum" where
  "parseInt_num x =
     (case x of
        NaN \<Rightarrow> NaN
      | Infinity _ \<Rightarrow> NaN
      | Fin n \<Rightarrow>
          if \<bar>n\<bar> < 10 ^ 21 then Fin n
          else Fin (if n < 0 then - int (lead_digit (nat \<bar>n\<bar>)) else int (lead_digit (nat \<bar>n\<bar>))))"




section \<open>The orders table\<close>

text \<open>
  A timestamp is a calendar date and the second of the day; \<^verbatim>\<open>DATE(t)\<close> is its
  first three fields. Amounts are whole numbers of the currency.
\<close>

record tstamp =
  ts_year :: nat
  ts_month :: nat
  ts_day :: nat
  ts_second :: nat

definition DATE :: "tstamp \<Rightarrow> nat \<times> nat \<times> nat" where
  "DATE t = (ts_year t, ts_month t, ts_day t)"

text \<open>A row of the table \<^verbatim>\<open>orders\<close>; \<open>row_id\<close> is the column \<^verbatim>\<open>id\<close>, and a
  \<open>total_amount\<close> of \<open>None\<close> is SQL \<^verbatim>\<open>NULL\<close>.\<close>

record order =
  row_id :: nat
  order_id :: string
  fullName :: string
  address :: string
  mobile :: string
  product_id :: string
  product_name :: string
  quantity :: int
  status :: string
  order_notes :: string
  total_amount :: "int option"
  createdAt :: tstamp
  updatedAt :: tstamp

datatype error =
    StatusRequired
  | InvalidCourierStatus
  | InvalidStatus
  | InvalidOrderId
  | OrderNotFound
  | InvalidTransition string string
  | TypeError
  | OrderIdsRequired
  | ValidationFailed "string list"
  | MissingRequiredFields
  | ProductNotFound
  | StoreRejected

subsection \<open>Order model: repository operations\<close>

text \<open>\<^verbatim>\<open>Order.findById\<close>: \<^verbatim>\<open>SELECT * FROM orders WHERE id = ? LIMIT 1\<close>, then
  \<^verbatim>\<open>orders[0] || null\<close>.\<close>

definition findById :: "order list \<Rightarrow> nat \<Rightarrow> order option" where
  "findById rows i = find (\<lambda>r. row_id r = i) rows"

text \<open>
  The table is the one the seed script declares, on a server in strict mode, which
  refuses a value its column cannot hold; text is compared as written. The column
  \<^verbatim>\<open>status\<close> is an \<^verbatim>\<open>ENUM\<close> of six values.
\<close>

definition status_enum :: "string list" where
  "status_enum = [''pending'', ''received'', ''issued'', ''sended'', ''in-transit'', ''delivered'']"

text \<open>
  \<^verbatim>\<open>Order.updateStatus\<close>: \<^verbatim>\<open>UPDATE orders SET status = ? WHERE id = ?\<close>, then
  \<^verbatim>\<open>findById\<close>. The column \<^verbatim>\<open>updatedAt\<close> is declared
  \<^verbatim>\<open>ON UPDATE CURRENT_TIMESTAMP\<close>: it takes the current time when the row changes.
  When a row is to be written and the status is outside the \<^verbatim>\<open>ENUM\<close>, the statement
  fails, the table stays as it is and the error is thrown to the caller.
\<close>

definition set_status :: "tstamp \<Rightarrow> string \<Rightarrow> order \<Rightarrow> order" where
  "set_status now s r = (if status r = s then r else r\<lparr>status := s, updatedAt := now\<rparr>)"

definition updateStatus ::
    "order list \<Rightarrow> tstamp \<Rightarrow> nat \<Rightarrow> string \<Rightarrow> order list \<times> (error + order option)" where
  "updateStatus rows now i s =
     (if findById rows i \<noteq> None \<and> s \<notin> set status_enum then (rows, Inl StoreRejected)
      else let rows' = map (\<lambda>r. if row_id r = i then set_status now s r else r) rows
           in (rows', Inr (findById rows' i)))"

text \<open>\<^verbatim>\<open>Order.delete\<close>: \<^verbatim>\<open>DELETE FROM orders WHERE id = ?\<close>, then \<^verbatim>\<open>return true\<close>.\<close>

definition delete :: "order list \<Rightarrow> nat \<Rightarrow> order list \<times> bool" where
  "delete rows i = (filter (\<lambda>r. row_id r \<noteq> i) rows, True)"

section \<open>Courier controller\<close>

text \<open>
  \<^verbatim>\<open>isValidStatusTransition\<close> reads \<^verbatim>\<open>validTransitions[currentStatus]\<close>. The object
  literal has three own properties; a current status that names a member every object
  inherits yields that member, which is not nullish and has no \<^verbatim>\<open>includes\<close>, so the
  call throws a \<^verbatim>\<open>TypeError\<close>. Any other key yields \<^verbatim>\<open>undefined\<close>, the optional
  chain stops and the result is \<^verbatim>\<open>false\<close>.
\<close>

definition validTransitions :: "string \<Rightarrow> string list option" where
  "validTransitions = map_of
     [(''sended'', [''in-transit'', ''delivered'']),
      (''in-transit'', [''delivered'']),
      (''delivered'', [])]"

definition inherited_members :: "string list" where
  "inherited_members =
     [''constructor'', ''__proto__'', ''hasOwnProperty'', ''isPrototypeOf'',
      ''propertyIsEnumerable'', ''toLocaleString'', ''toString'', ''valueOf'',
      ''__defineGetter__'', ''__defineSetter__'', ''__lookupGetter__'', ''__lookupSetter__'']"

definition isValidStatusTransition :: "string \<Rightarrow> string \<Rightarrow> error + bool" where
  "isValidStatusTransition currentStatus newStatus =
     (case validTransitions currentStatus of
        Some row \<Rightarrow> Inr (newStatus \<in> set row)
      | None \<Rightarrow> if currentStatus \<in> set inherited_members then Inl TypeError else Inr False)"

definition courier_validStatuses :: "string list" where
  "courier_validStatuses = [''sended'', ''in-transit'', ''delivered'']"

text \<open>
  \<^verbatim>\<open>updateCourierStatus\<close>: the request carries the order's id and, in its body, the
  target status (\<open>None\<close> when the property is absent). The result is the table after the
  request and either the rejection or the refreshed row; an error thrown by the update is
  passed on to the error handler.
\<close>

definition updateCourierStatus ::
    "order list \<Rightarrow> tstamp \<Rightarrow> nat \<Rightarrow> string option \<Rightarrow> order list \<times> (error + order option)" where
  "updateCourierStatus rows now i requested =
     (case requested of
        None \<Rightarrow> (rows, Inl StatusRequired)
      | Some s \<Rightarrow>
          if s = [] then (rows, Inl StatusRequired)
          else if s \<notin> set courier_validStatuses then (rows, Inl InvalidCourierStatus)
          else (case findById rows i of
                  None \<Rightarrow> (rows, Inl OrderNotFound)
                | Some ord \<Rightarrow>
                    (case isValidStatusTransition (status ord) s of
                       Inl e \<Rightarrow> (rows, Inl e)
                     | Inr ok \<Rightarrow>
                         if \<not> ok then (rows, Inl (InvalidTransition (status ord) s))
                         else updateStatus rows now i s)))"

text \<open>The row of the transition table for a status: membership of a target in it.\<close>

definition in_transition_row :: "string \<Rightarrow> string \<Rightarrow> bool" where
  "in_transition_row cur target =
     (case validTransitions cur of None \<Rightarrow> False | Some row \<Rightarrow> target \<in> set row)"

text \<open>A request succeeded when its answer is not a rejection.\<close>

definition succeeded :: "'s \<times> (error + 'a) \<Rightarrow> bool" where
  "succeeded res = (case snd res of Inl _ \<Rightarrow> False | Inr _ \<Rightarrow> True)"

subsection \<open>Bulk update of the courier status\<close>

text \<open>
  \<^verbatim>\<open>bulkUpdateStatus\<close> collects the ids it updated and, for every other id, the id
  with the reason. One pass of the loop body is \<open>bulk_step\<close>: an exception thrown inside
  the body is caught there and recorded as that id's failure. The request runs within one
  second of the store's clock, \<open>now\<close>.
\<close>

record bulk_results =
  successful :: "nat list"
  failed :: "(nat \<times> error) list"

definition bulk_step :: "tstamp \<Rightarrow> string \<Rightarrow> nat \<Rightarrow> order list \<times> bulk_results \<Rightarrow> order list \<times> bulk_results" where
  "bulk_step now s orderId acc =
     (case acc of (rows, results) \<Rightarrow>
        (case findById rows orderId of
           None \<Rightarrow> (rows, results\<lparr>failed := failed results @ [(orderId, OrderNotFound)]\<rparr>)
         | Some ord \<Rightarrow>
             (case isValidStatusTransition (status ord) s of
                Inl e \<Rightarrow> (rows, results\<lparr>failed := failed results @ [(orderId, e)]\<rparr>)
              | Inr ok \<Rightarrow>
                  if \<not> ok
                  then (rows, results\<lparr>failed := failed results
                                          @ [(orderId, InvalidTransition (status ord) s)]\<rparr>)
                  else (case updateStatus rows now orderId s of
                          (rows', Inl e) \<Rightarrow>
                            (rows', results\<lparr>failed := failed results @ [(orderId, e)]\<rparr>)
                        | (rows', Inr _) \<Rightarrow>
                            (rows', results\<lparr>successful := successful results @ [orderId]\<rparr>)))))"

fun bulk_loop :: "tstamp \<Rightarrow> string \<Rightarrow> nat list \<Rightarrow> order list \<times> bulk_results \<Rightarrow> order list \<times> bulk_results" where
  "bulk_loop now s [] acc = acc"
| "bulk_loop now s (orderId # rest) acc = bulk_loop now s rest (bulk_step now s orderId acc)"

text \<open>The body property \<^verbatim>\<open>orderIds\<close> is \<open>None\<close> when it is absent or not an array.\<close>

definition bulkUpdateStatus ::
    "order list \<Rightarrow> tstamp \<Rightarrow> nat list option \<Rightarrow> string option
       \<Rightarrow> order list \<times> (error + bulk_results)" where
  "bulkUpdateStatus rows now orderIds requested =
     (case orderIds of
        None \<Rightarrow> (rows, Inl OrderIdsRequired)
      | Some ids \<Rightarrow>
          if ids = [] then (rows, Inl OrderIdsRequired)
          else (case requested of
                  None \<Rightarrow> (rows, Inl StatusRequired)
                | Some s \<Rightarrow>
                    if s = [] then (rows, Inl StatusRequired)
                    else if s \<notin> set courier_validStatuses then (rows, Inl InvalidStatus)
                    else (case bulk_loop now s ids (rows, \<lparr>successful = [], failed = []\<rparr>) of
                            (rows', results) \<Rightarrow> (rows', Inr results))))"

text \<open>The guarded update of one order on its own: what \<open>bulk_step\<close> does to the table.\<close>

definition guarded_update :: "tstamp \<Rightarrow> string \<Rightarrow> nat \<Rightarrow> order list \<Rightarrow> order list" where
  "guarded_update now s orderId rows = fst (updateCourierStatus rows now orderId (Some s))"

subsection \<open>Delivery timeline\<close>

record checkpoint =
  cp_status :: string
  cp_label :: string
  cp_date :: "tstamp option"
  cp_completed :: bool

definition getDeliveryTimeline :: "order list \<Rightarrow> nat \<Rightarrow> error + checkpoint list" where
  "getDeliveryTimeline rows i =
     (case findById rows i of
        None \<Rightarrow> Inl OrderNotFound
      | Some ord \<Rightarrow> Inr
         [\<lparr>cp_status = ''order-placed'', cp_label = ''Order Placed'',
            cp_date = Some (createdAt ord), cp_completed = True\<rparr>,
          \<lparr>cp_status = ''processed'', cp_label = ''Order Processed'',
            cp_date = (if status ord \<in> set [''received'', ''issued'', ''sended'', ''in-transit'', ''delivered'']
                       then Some (updatedAt ord) else None),
            cp_completed = (status ord \<in> set [''received'', ''issued'', ''sended'', ''in-transit'', ''delivered''])\<rparr>,
          \<lparr>cp_status = ''sended'', cp_label = ''Sent to Courier'',
            cp_date = (if status ord \<in> set [''sended'', ''in-transit'', ''delivered'']
                       then Some (updatedAt ord) else None),
            cp_completed = (status ord \<in> set [''sended'', ''in-transit'', ''delivered''])\<rparr>,
          \<lparr>cp_status = ''in-transit'', cp_label = ''In Transit'',
            cp_date = (if status ord \<in> set [''in-transit'', ''delivered'']
                       then Some (updatedAt ord) else None),
            cp_completed = (status ord \<in> set [''in-transit'', ''delivered''])\<rparr>,
          \<lparr>cp_status = ''delivered'', cp_label = ''Delivered'',
            cp_date = (if status ord = ''delivered'' then Some (updatedAt ord) else None),
            cp_completed = (status ord = ''delivered'')\<rparr>])"

text \<open>
  The canonical ordering of the lifecycle, and the position in it from which each
  checkpoint of the timeline counts as reached.
\<close>

definition canonical_order :: "string list" where
  "canonical_order = [''pending'', ''received'', ''issued'', ''sended'', ''in-transit'', ''delivered'']"

fun position :: "string \<Rightarrow> string list \<Rightarrow> nat option" where
  "position x [] = None"
| "position x (y # ys) = (if x = y then Some 0 else map_option Suc (position x ys))"

definition checkpoint_position :: "string \<Rightarrow> nat option" where
  "checkpoint_position = map_of
     [(''order-placed'', 0), (''processed'', 1), (''sended'', 3), (''in-transit'', 4),
      (''delivered'', 5)]"

definition at_or_beyond :: "string \<Rightarrow> string \<Rightarrow> bool" where
  "at_or_beyond st cp =
     (case (position st canonical_order, checkpoint_position cp) of
        (Some p, Some q) \<Rightarrow> q \<le> p
      | _ \<Rightarrow> False)"

section \<open>General status update\<close>

text \<open>
  \<^verbatim>\<open>PUT /api/orders/:id/status\<close> of the database server: the id is the text of the
  path segment, the status a body property. An error thrown by the update is caught and
  answered as a server error. An id that reads as \<^verbatim>\<open>Infinity\<close> passes the check of the
  id; the model lets the store refuse it as a parameter.
\<close>

definition server_validStatuses :: "string list" where
  "server_validStatuses =
     [''pending'', ''received'', ''issued'', ''sended'', ''in-transit'', ''delivered'', ''cancelled'']"

definition put_order_status ::
    "order list \<Rightarrow> tstamp \<Rightarrow> string \<Rightarrow> string option \<Rightarrow> order list \<times> (error + order)" where
  "put_order_status rows now id_param requested =
     (let orderId = parseInt id_param in
      if orderId = NaN \<or> num_less orderId 1 then (rows, Inl InvalidOrderId)
      else (case requested of
              None \<Rightarrow> (rows, Inl InvalidStatus)
            | Some s \<Rightarrow>
                if s = [] \<or> s \<notin> set server_validStatuses then (rows, Inl InvalidStatus)
                else (case orderId of
                        Fin n \<Rightarrow>
                          (case updateStatus rows now (nat n) s of
                             (rows', Inl e) \<Rightarrow> (rows', Inl e)
                           | (rows', Inr None) \<Rightarrow> (rows', Inl OrderNotFound)
                           | (rows', Inr (Some updatedOrder)) \<Rightarrow> (rows', Inr updatedOrder))
                      | _ \<Rightarrow> (rows, Inl StoreRejected))))"

text \<open>\<^verbatim>\<open>OrdersController.updateOrderStatus\<close>\<close>

definition controller_validStatuses :: "string list" where
  "controller_validStatuses =
     [''pending'', ''received'', ''issued'', ''sended'', ''in-transit'', ''delivered'']"

definition updateOrderStatus ::
    "order list \<Rightarrow> tstamp \<Rightarrow> nat \<Rightarrow> string option \<Rightarrow> order list \<times> (error + order option)" where
  "updateOrderStatus rows now i requested =
     (case requested of
        None \<Rightarrow> (rows, Inl StatusRequired)
      | Some s \<Rightarrow>
          if s = [] then (rows, Inl StatusRequired)
          else if s \<notin> set controller_validStatuses then (rows, Inl InvalidStatus)
          else (case findById rows i of
                  None \<Rightarrow> (rows, Inl OrderNotFound)
                | Some ord \<Rightarrow> updateStatus rows now i s))"


text \<open>
  Whether the guarded update of one id goes through on a given table, and the reason
  recorded when it does not.
\<close>

definition advance_ok :: "string \<Rightarrow> order list \<Rightarrow> nat \<Rightarrow> bool" where
  "advance_ok s rows orderId =
     (case findById rows orderId of
        None \<Rightarrow> False
      | Some ord \<Rightarrow> in_transition_row (status ord) s)"

definition failure_reason :: "string \<Rightarrow> order list \<Rightarrow> nat \<Rightarrow> error" where
  "failure_reason s rows orderId =
     (case findById rows orderId of
        None \<Rightarrow> OrderNotFound
      | Some ord \<Rightarrow>
          if status ord \<in> set inherited_members then TypeError
          else InvalidTransition (status ord) s)"

section \<open>Order validation and creation\<close>

subsection \<open>The mobile-number rule\<close>








subsection \<open>\<^verbatim>\<open>Order.validateOrderData\<close>\<close>





subsection \<open>\<^verbatim>\<open>Order.generateOrderId\<close> and \<^verbatim>\<open>Order.create\<close>\<close>












subsection \<open>\<^verbatim>\<open>OrdersController.createOrder\<close>\<close>




subsection \<open>Creation in the in-memory server\<close>

text \<open>
  An order of the in-memory server. The product details come from a lookup that can yield
  an inherited object member, whose \<^verbatim>\<open>product_id\<close>, \<^verbatim>\<open>product_name\<close> and
  \<^verbatim>\<open>price\<close> are \<^verbatim>\<open>undefined\<close>; the amount is then \<^verbatim>\<open>NaN\<close>, here \<open>None\<close>.
\<close>

record mem_order =
  mem_id :: string
  mem_order_id :: string
  mem_fullName :: string
  mem_address :: string
  mem_mobile :: string
  mem_product :: string
  mem_product_id :: "string option"
  mem_product_name :: "string option"
  mem_quantity :: string
  mem_status :: string
  mem_total_amount :: "int option"
  mem_createdAt :: tstamp






section \<open>Dashboard statistics\<close>

text \<open>
  The aggregate query of \<^verbatim>\<open>Order.getDashboardStats\<close>. SQL's \<^verbatim>\<open>SUM\<close> skips
  \<^verbatim>\<open>NULL\<close> values and is \<^verbatim>\<open>NULL\<close> when no value is left, in particular over no
  rows; \<^verbatim>\<open>COUNT(*)\<close> is the number of rows. A query with aggregates and no
  \<^verbatim>\<open>GROUP BY\<close> yields exactly one row.
\<close>

definition sql_sum :: "int option list \<Rightarrow> int option" where
  "sql_sum vs =
     (if list_all (\<lambda>v. v = None) vs then None
      else Some (sum_list (map (\<lambda>v. case v of None \<Rightarrow> 0 | Some x \<Rightarrow> x) vs)))"

text \<open>The amount of a row, a \<^verbatim>\<open>NULL\<close> amount counting as nothing.\<close>

definition amount_of :: "order \<Rightarrow> int" where
  "amount_of r = (case total_amount r of None \<Rightarrow> 0 | Some a \<Rightarrow> a)"

text \<open>\<^verbatim>\<open>SUM(CASE WHEN c THEN 1 ELSE 0 END)\<close>\<close>

definition sum_case :: "(order \<Rightarrow> bool) \<Rightarrow> order list \<Rightarrow> int option" where
  "sum_case c rows = sql_sum (map (\<lambda>r. Some (if c r then 1 else 0)) rows)"

record stats =
  total :: int
  pending :: "int option"
  received :: "int option"
  issued :: "int option"
  courier :: "int option"
  today :: "int option"
  monthly :: "int option"
  total_revenue :: "int option"

text \<open>\<open>curdate\<close> is \<^verbatim>\<open>CURDATE()\<close>: year, month and day.\<close>

definition stats_query :: "order list \<Rightarrow> nat \<times> nat \<times> nat \<Rightarrow> stats list" where
  "stats_query rows curdate =
     [\<lparr>total = int (length rows),
       pending = sum_case (\<lambda>r. status r = ''pending'') rows,
       received = sum_case (\<lambda>r. status r = ''received'') rows,
       issued = sum_case (\<lambda>r. status r = ''issued'') rows,
       courier = sum_case (\<lambda>r. status r \<in> set [''sended'', ''in-transit'', ''delivered'']) rows,
       today = sum_case (\<lambda>r. DATE (createdAt r) = curdate) rows,
       monthly = sum_case (\<lambda>r. ts_month (createdAt r) = fst (snd curdate)
                               \<and> ts_year (createdAt r) = fst curdate) rows,
       total_revenue = sql_sum (map total_amount rows)\<rparr>]"

text \<open>\<^verbatim>\<open>result[0] || { total: 0, ..., total_revenue: 0 }\<close>\<close>

definition getDashboardStats :: "order list \<Rightarrow> nat \<times> nat \<times> nat \<Rightarrow> stats" where
  "getDashboardStats rows curdate =
     (case stats_query rows curdate of
        [] \<Rightarrow> \<lparr>total = 0, pending = Some 0, received = Some 0, issued = Some 0, courier = Some 0,
                today = Some 0, monthly = Some 0, total_revenue = Some 0\<rparr>
      | r # _ \<Rightarrow> r)"

text \<open>\<^verbatim>\<open>DashboardController.getStats\<close> answers with the statistics as they are.\<close>

definition getStats :: "order list \<Rightarrow> nat \<times> nat \<times> nat \<Rightarrow> stats" where
  "getStats rows curdate = getDashboardStats rows curdate"

text \<open>
  \<^verbatim>\<open>GET /api/dashboard/stats\<close> of the database server formats each count with
  \<^verbatim>\<open>parseInt(x) || 0\<close>, where \<^verbatim>\<open>parseInt(null)\<close> is \<^verbatim>\<open>NaN\<close>; it does not report the
  revenue. \<^verbatim>\<open>GET /api/analytics\<close> reports \<^verbatim>\<open>parseFloat(stats.total_revenue) || 0\<close>.
\<close>

definition or_zero :: "int option \<Rightarrow> int" where
  "or_zero v = (case v of None \<Rightarrow> 0 | Some n \<Rightarrow> if n \<noteq> 0 then n else 0)"

record formatted_stats =
  f_total :: int
  f_pending :: int
  f_received :: int
  f_issued :: int
  f_courier :: int
  f_today :: int
  f_monthly :: int

definition get_dashboard_stats :: "order list \<Rightarrow> nat \<times> nat \<times> nat \<Rightarrow> formatted_stats" where
  "get_dashboard_stats rows curdate =
     (let stats = getDashboardStats rows curdate in
      \<lparr>f_total = or_zero (Some (total stats)),
       f_pending = or_zero (pending stats),
       f_received = or_zero (received stats),
       f_issued = or_zero (issued stats),
       f_courier = or_zero (courier stats),
       f_today = or_zero (today stats),
       f_monthly = or_zero (monthly stats)\<rparr>)"

definition analytics_totalRevenue :: "order list \<Rightarrow> nat \<times> nat \<times> nat \<Rightarrow> int" where
  "analytics_totalRevenue rows curdate = or_zero (total_revenue (getDashboardStats rows curdate))"

text \<open>The statistics of the in-memory server, which have no revenue field.\<close>

record mem_stats =
  m_total :: nat
  m_pending :: nat
  m_received :: nat
  m_issued :: nat
  m_courier :: nat
  m_today :: nat
  m_monthly :: nat

definition mem_dashboard_stats :: "mem_order list \<Rightarrow> tstamp \<Rightarrow> mem_stats" where
  "mem_dashboard_stats orders now =
     \<lparr>m_total = length orders,
      m_pending = length (filter (\<lambda>x. mem_status x = ''received'') orders),
      m_received = length (filter (\<lambda>x. mem_status x = ''received'') orders),
      m_issued = length (filter (\<lambda>x. mem_status x = ''issued'') orders),
      m_courier = length (filter (\<lambda>x. mem_status x = ''sended'' \<or> mem_status x = ''in-transit'') orders),
      m_today = length (filter (\<lambda>x. DATE (mem_createdAt x) = DATE now) orders),
      m_monthly = length (filter (\<lambda>x. ts_month (mem_createdAt x) = ts_month now) orders)\<rparr>"

section \<open>Sample data\<close>

definition t0 :: tstamp where
  "t0 = \<lparr>ts_year = 2024, ts_month = 1, ts_day = 4, ts_second = 36000\<rparr>"

definition t1 :: tstamp where
  "t1 = \<lparr>ts_year = 2024, ts_month = 1, ts_day = 6, ts_second = 100\<rparr>"

definition sample_order :: "nat \<Rightarrow> string \<Rightarrow> int \<Rightarrow> order" where
  "sample_order i st amount =
     \<lparr>row_id = i, order_id = ''ORD202401004'', fullName = ''Anil Silva'',
      address = ''321 Negombo Road, Negombo'', mobile = ''94705556677'',
      product_id = ''PROD001'', product_name = ''NIRVAAN 5KG'', quantity = 1,
      status = st, order_notes = '''', total_amount = Some amount, createdAt = t0, updatedAt = t0\<rparr>"


definition three_rows :: "order list" where
  "three_rows = [sample_order 1 ''sended'' 100, sample_order 2 ''in-transit'' 200]"

text \<open>Three orders created on the same day, with amounts 100, 200 and 300.\<close>

definition same_day_rows :: "order list" where
  "same_day_rows = [sample_order 1 ''pending'' 100, sample_order 2 ''received'' 200,
                    sample_order 3 ''sended'' 300]"





section \<open>Properties\<close>

subsection \<open>Repository lemmas\<close>

lemma findById_Some_id: "findById rows i = Some ord \<Longrightarrow> row_id ord = i"
  by (auto simp: findById_def find_Some_iff)

lemma findById_map_same:
  "findById (map (\<lambda>r. if row_id r = i then f r else r) rows) i
     = map_option f (findById rows i)" if "\<And>r. row_id (f r) = row_id r"
  using that by (induction rows) (auto simp: findById_def)

lemma findById_map_other:
  "j \<noteq> i \<Longrightarrow> (\<And>r. row_id (f r) = row_id r) \<Longrightarrow> findById (map (\<lambda>r. if row_id r = i then f r else r) rows) j
     = findById rows j"
  by (induction rows) (auto simp: findById_def)

lemma row_id_set_status [simp]: "row_id (set_status now s r) = row_id r"
  by (simp add: set_status_def)

lemma updateStatus_result:
  assumes "s \<in> set status_enum"
  shows "updateStatus rows now i s =
     (map (\<lambda>r. if row_id r = i then set_status now s r else r) rows,
      Inr (map_option (set_status now s) (findById rows i)))"
  using assms by (simp add: updateStatus_def Let_def findById_map_same)


lemma courier_status_stored: "s \<in> set courier_validStatuses \<Longrightarrow> s \<in> set status_enum"
  by (auto simp: courier_validStatuses_def status_enum_def)

lemma in_transition_row_cases:
  "in_transition_row cur target \<longleftrightarrow>
     (cur = ''sended'' \<and> (target = ''in-transit'' \<or> target = ''delivered''))
   \<or> (cur = ''in-transit'' \<and> target = ''delivered'')"
  by (auto simp: in_transition_row_def validTransitions_def)

lemma in_row_courier: "in_transition_row cur target \<Longrightarrow> target \<in> set courier_validStatuses \<and> target \<noteq> [] \<and> target \<noteq> cur"
  by (auto simp: in_transition_row_cases courier_validStatuses_def)

lemma isValid_iff: "isValidStatusTransition cur target = Inr True \<longleftrightarrow> in_transition_row cur target"
  by (auto simp: isValidStatusTransition_def in_transition_row_def split: option.splits)

lemma isValid_cases:
  "isValidStatusTransition cur target =
     (if in_transition_row cur target then Inr True
      else if cur \<in> set inherited_members then Inl TypeError else Inr False)"
  by (auto simp: isValidStatusTransition_def in_transition_row_def validTransitions_def inherited_members_def)

subsection \<open>Sample data and \<open>parseInt\<close>\<close>

lemma findById_sample [simp]: "findById (sample_order i st a # rows) i = Some (sample_order i st a)"
  by (simp add: findById_def sample_order_def)

lemma status_sample [simp]: "status (sample_order i st a) = st"
  by (simp add: sample_order_def)

lemma row_id_sample [simp]: "row_id (sample_order i st a) = i"
  by (simp add: sample_order_def)

lemma bit_length_bound: "m < 2 ^ k \<Longrightarrow> bit_length m \<le> k"
proof (induction k arbitrary: m)
  case 0
  then show ?case by (simp add: bit_length.simps)
next
  case (Suc k)
  show ?case
  proof (cases "m = 0")
    case True
    then show ?thesis by (simp add: bit_length.simps)
  next
    case False
    have "m div 2 < 2 ^ k" using Suc.prems by auto
    then have "bit_length (m div 2) \<le> k" by (rule Suc.IH)
    then show ?thesis using False by (subst bit_length.simps) simp
  qed
qed


lemma round_double_exact: "m < 2 ^ 53 \<Longrightarrow> round_double m = Some m"
proof -
  assume a: "m < 2 ^ 53"
  then have e: "bit_length m - 53 = 0" using bit_length_bound[of m 53] by simp
  have "bit_length m \<le> 53" using a by (rule bit_length_bound)
  then have b: "\<not> 1024 < bit_length m" by simp
  show ?thesis unfolding round_double_def Let_def e using b by simp
qed

lemma to_number_exact:
  "m < 2 ^ 53 \<Longrightarrow> to_number neg m = Fin (if neg then - int m else int m)"
  by (simp add: to_number_def round_double_exact)

lemmas parseInt_eval = parseInt_def is_space_def js_whitespace_def radix_digit_def char_digit_def
  digit_value_def Let_def to_number_exact

lemma parseInt_examples:
  "parseInt '' -12px'' = Fin (-12)" "parseInt ''0x1F'' = Fin 31" "parseInt ''abc'' = NaN"
  "parseInt ''42'' = Fin 42" "parseInt ''2'' = Fin 2" "parseInt ''3'' = Fin 3"
  by (simp_all add: parseInt_eval)

lemma bit_length_eq: "2 ^ k \<le> m \<Longrightarrow> m < 2 ^ Suc k \<Longrightarrow> bit_length m = Suc k"
proof (induction k arbitrary: m)
  case 0
  then have "m = 1" by simp
  then show ?case by (simp add: bit_length.simps)
next
  case (Suc k)
  have "2 ^ k \<le> m div 2" using Suc.prems(1) by auto
  moreover have "m div 2 < 2 ^ Suc k" using Suc.prems(2) by auto
  ultimately have "bit_length (m div 2) = Suc k" by (rule Suc.IH)
  moreover have "m \<noteq> 0"
  proof -
    have "(0::nat) < 2 ^ Suc k" by simp
    then show ?thesis using Suc.prems(1) by linarith
  qed
  ultimately show ?case by (subst bit_length.simps) simp
qed

lemma num_digits_eq: "10 ^ k \<le> m \<Longrightarrow> m < 10 ^ Suc k \<Longrightarrow> num_digits m = Suc k"
proof (induction k arbitrary: m)
  case 0
  then show ?case by (simp add: num_digits.simps)
next
  case (Suc k)
  have "10 ^ k \<le> m div 10" using Suc.prems(1) by auto
  moreover have "m div 10 < 10 ^ Suc k" using Suc.prems(2) by auto
  ultimately have "num_digits (m div 10) = Suc k" by (rule Suc.IH)
  moreover have "\<not> m < 10"
  proof -
    have "(1::nat) \<le> 10 ^ k" by simp
    then have "(10::nat) \<le> 10 ^ Suc k" by simp
    then show ?thesis using Suc.prems(1) by linarith
  qed
  ultimately show ?case by (subst num_digits.simps) simp
qed

text \<open>Beyond 53 bits the value read is the nearest double, and a number from \<open>10^21\<close> on
  reads as the first digit of its text.\<close>

lemma parseInt_rounds: "parseInt ''9007199254740993'' = Fin 9007199254740992"
proof -
  have b1: "bit_length 9007199254740993 = 54" by (rule bit_length_eq[of 53, simplified]) simp_all
  have b2: "bit_length 9007199254740992 = 54" by (rule bit_length_eq[of 53, simplified]) simp_all
  have r: "round_double 9007199254740993 = Some 9007199254740992"
    by (simp add: round_double_def Let_def b1 b2)
  show ?thesis
    by (simp add: parseInt_def is_space_def js_whitespace_def radix_digit_def char_digit_def
        digit_value_def Let_def to_number_def r)
qed

lemma parseInt_num_large: "parseInt_num (Fin 1000000000000000000000) = Fin 1"
proof -
  have d: "num_digits 1000000000000000000000 = 22" by (rule num_digits_eq[of 21, simplified]) simp_all
  have b1: "bit_length 1000000000000000000000 = 70" by (rule bit_length_eq[of 69, simplified]) simp_all
  have b2: "bit_length 2000000000000000000000 = 71" by (rule bit_length_eq[of 70, simplified]) simp_all
  have r1: "round_double 1000000000000000000000 = Some 1000000000000000000000"
    by (simp add: round_double_def Let_def b1)
  have r2: "round_double 2000000000000000000000 = Some 2000000000000000000000"
    by (simp add: round_double_def Let_def b2)
  have c: "shortest_candidate 1000000000000000000000 (Suc 0) = Some (Suc 0)"
    by (simp add: shortest_candidate_def Let_def d r1 r2)
  have "lead_digit 1000000000000000000000 = 1"
    by (simp add: lead_digit_def c)
  then show ?thesis by (simp add: parseInt_num_def)
qed

lemma courier_status_nonempty: "s \<in> set courier_validStatuses \<Longrightarrow> s \<noteq> []"
  by (auto simp: courier_validStatuses_def)



subsection \<open>Courier-scoped status advance\<close>

text \<open>
  C1 (as amended). For an existing order and any target, \<open>updateCourierStatus\<close> succeeds
  exactly when the target is in the transition-table row of the order's current status, and
  then the order carries the target status. Otherwise the table is unchanged and the request
  is rejected: with the invalid-transition error when the target is one of the three courier
  statuses (the table lookup throws instead when the current status names an inherited
  object member), with \<open>StatusRequired\<close> for an empty target and with
  \<open>InvalidCourierStatus\<close> for any other target.
\<close>

theorem updateCourierStatus_table:
  assumes "findById rows i = Some ord"
  shows "(succeeded (updateCourierStatus rows now i (Some target))
            \<longleftrightarrow> in_transition_row (status ord) target)
       \<and> (in_transition_row (status ord) target \<longrightarrow>
            updateCourierStatus rows now i (Some target)
              = (fst (updateStatus rows now i target),
                 Inr (Some (ord\<lparr>status := target, updatedAt := now\<rparr>))))
       \<and> (\<not> in_transition_row (status ord) target \<longrightarrow>
            fst (updateCourierStatus rows now i (Some target)) = rows
          \<and> snd (updateCourierStatus rows now i (Some target)) =
              Inl (if target = [] then StatusRequired
                   else if target \<notin> set courier_validStatuses then InvalidCourierStatus
                   else if status ord \<in> set inherited_members then TypeError
                   else InvalidTransition (status ord) target))"
proof (cases "in_transition_row (status ord) target")
  case True
  from in_row_courier[OF True] have c: "target \<in> set courier_validStatuses" "target \<noteq> []" "target \<noteq> status ord"
    by auto
  have e: "target \<in> set status_enum" using c(1) by (rule courier_status_stored)
  have "updateCourierStatus rows now i (Some target)
              = (fst (updateStatus rows now i target),
                 Inr (Some (ord\<lparr>status := target, updatedAt := now\<rparr>)))"
    using True c assms
    by (simp add: updateCourierStatus_def isValid_cases updateStatus_result[OF e] set_status_def)
  then show ?thesis using True by (simp add: succeeded_def)
next
  case False
  then show ?thesis using assms
    by (simp add: updateCourierStatus_def isValid_cases succeeded_def)
qed

theorem updateCourierStatus_table_witness:
  "succeeded (updateCourierStatus [sample_order 1 ''sended'' 100] t1 1 (Some ''in-transit''))
   \<and> fst (updateCourierStatus [sample_order 1 ''sended'' 100] t1 1 (Some ''in-transit''))
       = [(sample_order 1 ''sended'' 100)\<lparr>status := ''in-transit'', updatedAt := t1\<rparr>]
   \<and> updateCourierStatus [sample_order 1 ''delivered'' 100] t1 1 (Some ''sended'')
       = ([sample_order 1 ''delivered'' 100], Inl (InvalidTransition ''delivered'' ''sended''))"
proof -
  have f1: "findById [sample_order 1 ''sended'' 100] 1 = Some (sample_order 1 ''sended'' 100)"
    by (simp add: findById_def sample_order_def)
  have f2: "findById [sample_order 1 ''delivered'' 100] 1 = Some (sample_order 1 ''delivered'' 100)"
    by (simp add: findById_def sample_order_def)
  have r1: "in_transition_row (status (sample_order 1 ''sended'' 100)) ''in-transit''"
    by (simp add: in_transition_row_cases sample_order_def)
  have r2: "\<not> in_transition_row (status (sample_order 1 ''delivered'' 100)) ''sended''"
    by (simp add: in_transition_row_cases sample_order_def)
  note a = updateCourierStatus_table[OF f1, of t1 "''in-transit''"]
  note b = updateCourierStatus_table[OF f2, of t1 "''sended''"]
  have u: "fst (updateStatus [sample_order 1 ''sended'' 100] t1 1 ''in-transit'')
       = [(sample_order 1 ''sended'' 100)\<lparr>status := ''in-transit'', updatedAt := t1\<rparr>]"
    by (simp add: updateStatus_result status_enum_def set_status_def sample_order_def)
  have s: "\<And>i st a. status (sample_order i st a) = st" by (simp add: sample_order_def)
  show ?thesis using a b r1 r2 u
    by (simp add: s courier_validStatuses_def inherited_members_def prod_eq_iff)
qed

text \<open>
  C1 as stated fails: a target outside the row is not always answered with the
  invalid-transition error. For an order that is \<open>sended\<close> the target \<open>pending\<close> is
  rejected as an invalid courier status.
\<close>

theorem courier_rejection_counterexample:
  "\<not> in_transition_row (status (sample_order 1 ''sended'' 100)) ''pending''
   \<and> findById [sample_order 1 ''sended'' 100] 1 = Some (sample_order 1 ''sended'' 100)
   \<and> updateCourierStatus [sample_order 1 ''sended'' 100] t1 1 (Some ''pending'')
       = ([sample_order 1 ''sended'' 100], Inl InvalidCourierStatus)
   \<and> snd (updateCourierStatus [sample_order 1 ''sended'' 100] t1 1 (Some ''pending''))
       \<noteq> Inl (InvalidTransition ''sended'' ''pending'')"
  by (simp add: in_transition_row_cases sample_order_def findById_def updateCourierStatus_def
      courier_validStatuses_def)

subsection \<open>Delivered orders\<close>

text \<open>
  C3 (as amended). For an order whose status is \<open>delivered\<close> the transition table has an
  empty row: \<open>isValidStatusTransition\<close> is false for every target, no request to
  \<open>updateCourierStatus\<close> succeeds and the table stays as it was, and the bulk update
  records the id as failed. The general status update is not covered: it has no guard.
\<close>

theorem delivered_terminal_for_courier:
  assumes "findById rows i = Some ord" and "status ord = ''delivered''"
  shows "\<not> in_transition_row ''delivered'' target
       \<and> isValidStatusTransition ''delivered'' target = Inr False
       \<and> \<not> succeeded (updateCourierStatus rows now i requested)
       \<and> fst (updateCourierStatus rows now i requested) = rows
       \<and> bulk_step now target i (rows, results)
            = (rows, results\<lparr>failed := failed results @ [(i, InvalidTransition ''delivered'' target)]\<rparr>)"
proof -
  have a: "\<And>t. \<not> in_transition_row ''delivered'' t" by (simp add: in_transition_row_cases)
  have b: "\<And>t. isValidStatusTransition ''delivered'' t = Inr False"
    by (simp add: isValid_cases a inherited_members_def)
  show ?thesis using assms
    by (simp add: a b updateCourierStatus_def succeeded_def bulk_step_def split: option.splits)
qed

theorem delivered_terminal_for_courier_witness:
  "\<not> succeeded (updateCourierStatus [sample_order 3 ''delivered'' 100] t1 3 (Some ''in-transit''))
   \<and> fst (updateCourierStatus [sample_order 3 ''delivered'' 100] t1 3 (Some ''in-transit''))
        = [sample_order 3 ''delivered'' 100]"
  using delivered_terminal_for_courier[of "[sample_order 3 ''delivered'' 100]" 3
      "sample_order 3 ''delivered'' 100" _ t1 "Some ''in-transit''"]
  by simp

text \<open>
  C3 as stated fails under the general update operations: both
  \<^verbatim>\<open>PUT /api/orders/:id/status\<close> and \<open>updateOrderStatus\<close> move a delivered order to
  \<open>pending\<close>.
\<close>

theorem delivered_general_update_counterexample:
  "status (sample_order 3 ''delivered'' 100) = ''delivered''
   \<and> put_order_status [sample_order 3 ''delivered'' 100] t1 ''3'' (Some ''pending'')
       = ([(sample_order 3 ''delivered'' 100)\<lparr>status := ''pending'', updatedAt := t1\<rparr>],
          Inr ((sample_order 3 ''delivered'' 100)\<lparr>status := ''pending'', updatedAt := t1\<rparr>))
   \<and> succeeded (updateOrderStatus [sample_order 3 ''delivered'' 100] t1 3 (Some ''pending''))"
proof -
  have p: "parseInt ''3'' = Fin 3" by (simp add: parseInt_eval)
  show ?thesis
    by (simp add: put_order_status_def p server_validStatuses_def updateStatus_result status_enum_def
        set_status_def updateOrderStatus_def controller_validStatuses_def succeeded_def num_less_def)
qed

subsection \<open>Bulk update\<close>

lemma guarded_update_eq:
  assumes "s \<in> set courier_validStatuses"
  shows "guarded_update now s j rows =
           (if advance_ok s rows j then fst (updateStatus rows now j s) else rows)"
  using assms courier_status_nonempty[OF assms]
  by (simp add: guarded_update_def updateCourierStatus_def advance_ok_def isValid_cases
      split: option.splits prod.splits)

lemma findById_guarded_other:
  assumes "s \<in> set courier_validStatuses" and "i \<noteq> j"
  shows "findById (guarded_update now s j rows) i = findById rows i"
  using assms
  by (simp add: guarded_update_eq updateStatus_result[OF courier_status_stored] findById_map_other)

lemma findById_guarded_same:
  assumes "s \<in> set courier_validStatuses"
  shows "findById (guarded_update now s j rows) j =
           (if advance_ok s rows j
            then map_option (\<lambda>r. r\<lparr>status := s, updatedAt := now\<rparr>) (findById rows j)
            else findById rows j)"
proof (cases "findById rows j")
  case None
  then show ?thesis using assms by (simp add: guarded_update_eq advance_ok_def)
next
  case (Some ord)
  show ?thesis
  proof (cases "in_transition_row (status ord) s")
    case True
    then have "status ord \<noteq> s" using in_row_courier by blast
    then show ?thesis using assms Some True
      by (simp add: guarded_update_eq advance_ok_def updateStatus_result[OF courier_status_stored]
          findById_map_same set_status_def)
  next
    case False
    then show ?thesis using assms Some by (simp add: guarded_update_eq advance_ok_def)
  qed
qed

lemma bulk_step_eq:
  assumes "s \<in> set courier_validStatuses"
  shows "bulk_step now s j (rows, res) =
           (guarded_update now s j rows,
            if advance_ok s rows j then res\<lparr>successful := successful res @ [j]\<rparr>
            else res\<lparr>failed := failed res @ [(j, failure_reason s rows j)]\<rparr>)"
  using assms
  by (simp add: bulk_step_def guarded_update_eq advance_ok_def failure_reason_def isValid_cases
      updateStatus_result[OF courier_status_stored] split: option.splits)

lemma bulk_loop_table:
  assumes "s \<in> set courier_validStatuses"
  shows "fst (bulk_loop now s ids (rows, res)) = fold (guarded_update now s) ids rows"
  using assms by (induction ids arbitrary: rows res) (simp_all add: bulk_step_eq)

lemma bulk_loop_count:
  assumes "s \<in> set courier_validStatuses"
  shows "length (successful (snd (bulk_loop now s ids (rows, res))))
           + length (failed (snd (bulk_loop now s ids (rows, res))))
         = length (successful res) + length (failed res) + length ids"
  using assms by (induction ids arbitrary: rows res) (simp_all add: bulk_step_eq)

lemma advance_ok_guarded_other:
  assumes "s \<in> set courier_validStatuses" and "i \<noteq> j"
  shows "advance_ok s (guarded_update now s j rows) i = advance_ok s rows i"
    and "failure_reason s (guarded_update now s j rows) i = failure_reason s rows i"
  using assms by (simp_all add: advance_ok_def failure_reason_def findById_guarded_other)

lemma bulk_loop_report:
  assumes "s \<in> set courier_validStatuses" and "distinct ids"
  shows "successful (snd (bulk_loop now s ids (rows, res)))
           = successful res @ filter (advance_ok s rows) ids
       \<and> failed (snd (bulk_loop now s ids (rows, res)))
           = failed res @ map (\<lambda>j. (j, failure_reason s rows j))
                              (filter (\<lambda>j. \<not> advance_ok s rows j) ids)"
  using assms
proof (induction ids arbitrary: rows res)
  case Nil
  then show ?case by simp
next
  case (Cons j ids)
  have ne: "\<And>i. i \<in> set ids \<Longrightarrow> i \<noteq> j" using Cons.prems by auto
  have f1: "filter (advance_ok s (guarded_update now s j rows)) ids = filter (advance_ok s rows) ids"
    by (rule filter_cong) (simp_all add: advance_ok_guarded_other[OF Cons.prems(1) ne])
  have f2: "filter (\<lambda>i. \<not> advance_ok s (guarded_update now s j rows) i) ids
              = filter (\<lambda>i. \<not> advance_ok s rows i) ids"
    by (rule filter_cong) (simp_all add: advance_ok_guarded_other[OF Cons.prems(1) ne])
  have f3: "map (\<lambda>i. (i, failure_reason s (guarded_update now s j rows) i))
                (filter (\<lambda>i. \<not> advance_ok s rows i) ids)
              = map (\<lambda>i. (i, failure_reason s rows i)) (filter (\<lambda>i. \<not> advance_ok s rows i) ids)"
    by (rule map_cong) (simp_all add: advance_ok_guarded_other[OF Cons.prems(1) ne])
  have d: "distinct ids" using Cons.prems by simp
  show ?case
    using Cons.IH[OF Cons.prems(1) d, of "guarded_update now s j rows"]
    by (simp add: bulk_step_eq[OF Cons.prems(1)] f1 f2 f3)
qed

lemma fold_guarded_lookup:
  assumes "s \<in> set courier_validStatuses" and "distinct ids"
  shows "findById (fold (guarded_update now s) ids rows) i =
           (if i \<in> set ids \<and> advance_ok s rows i
            then map_option (\<lambda>r. r\<lparr>status := s, updatedAt := now\<rparr>) (findById rows i)
            else findById rows i)"
  using assms
proof (induction ids arbitrary: rows)
  case Nil
  then show ?case by simp
next
  case (Cons j ids)
  have d: "distinct ids" and nj: "j \<notin> set ids" using Cons.prems by auto
  note IH = Cons.IH[OF Cons.prems(1) d, of "guarded_update now s j rows"]
  show ?case
  proof (cases "i = j")
    case True
    then show ?thesis using IH nj
      by (simp add: findById_guarded_same[OF Cons.prems(1)])
  next
    case False
    then show ?thesis using IH
      by (simp add: findById_guarded_other[OF Cons.prems(1)] advance_ok_guarded_other[OF Cons.prems(1)])
  qed
qed

text \<open>
  C6 (as amended). For a non-empty list of ids and a target among sended, in-transit and
  delivered, \<open>bulkUpdateStatus\<close> answers with a report; the ids reported as successful
  and as failed together number the submitted ids; the table is the result of applying the
  guarded update of each id in turn. When the ids are distinct, an id succeeds exactly when
  its own order exists in the table before the request and the target is in the row of that
  order's status, every other id is reported as failed with its own reason, the orders of
  the successful ids carry the target status and every other row is as before.
\<close>

theorem bulkUpdateStatus_report:
  assumes "ids \<noteq> []" and "s \<in> set courier_validStatuses"
  shows "\<exists>rows' results.
           bulkUpdateStatus rows now (Some ids) (Some s) = (rows', Inr results)
         \<and> length (successful results) + length (failed results) = length ids
         \<and> rows' = fold (guarded_update now s) ids rows
         \<and> (distinct ids \<longrightarrow>
              successful results = filter (advance_ok s rows) ids
            \<and> failed results = map (\<lambda>j. (j, failure_reason s rows j))
                                    (filter (\<lambda>j. \<not> advance_ok s rows j) ids)
            \<and> (\<forall>i. findById rows' i =
                   (if i \<in> set ids \<and> advance_ok s rows i
                    then map_option (\<lambda>r. r\<lparr>status := s, updatedAt := now\<rparr>) (findById rows i)
                    else findById rows i)))"
proof -
  let ?e = "\<lparr>successful = [], failed = []\<rparr>"
  let ?r = "bulk_loop now s ids (rows, ?e)"
  have b: "bulkUpdateStatus rows now (Some ids) (Some s) = (fst ?r, Inr (snd ?r))"
    using assms courier_status_nonempty[OF assms(2)]
    by (simp add: bulkUpdateStatus_def split: prod.splits)
  have c: "length (successful (snd ?r)) + length (failed (snd ?r)) = length ids"
    using bulk_loop_count[OF assms(2), of now ids rows ?e] by simp
  have t: "fst ?r = fold (guarded_update now s) ids rows"
    by (rule bulk_loop_table[OF assms(2)])
  have r: "distinct ids \<Longrightarrow>
             successful (snd ?r) = filter (advance_ok s rows) ids
           \<and> failed (snd ?r) = map (\<lambda>j. (j, failure_reason s rows j))
                                    (filter (\<lambda>j. \<not> advance_ok s rows j) ids)"
    using bulk_loop_report[OF assms(2), of ids now rows ?e] by simp
  show ?thesis
    using b c t r fold_guarded_lookup[OF assms(2), of ids now rows] by auto
qed

theorem bulkUpdateStatus_report_witness:
  "bulkUpdateStatus three_rows t1 (Some [1, 9, 2]) (Some ''delivered'')
     = ([(sample_order 1 ''sended'' 100)\<lparr>status := ''delivered'', updatedAt := t1\<rparr>,
         (sample_order 2 ''in-transit'' 200)\<lparr>status := ''delivered'', updatedAt := t1\<rparr>],
        Inr \<lparr>successful = [1, 2], failed = [(9, OrderNotFound)]\<rparr>)"
proof -
  have s: "''delivered'' \<in> set courier_validStatuses" by (simp add: courier_validStatuses_def)
  have n: "[1, 9, 2] \<noteq> ([] :: nat list)" by simp
  have d: "distinct [1, 9, 2::nat]" by simp
  have ok: "advance_ok ''delivered'' three_rows 1" "\<not> advance_ok ''delivered'' three_rows 9"
      "advance_ok ''delivered'' three_rows 2"
    by (simp_all add: advance_ok_def three_rows_def findById_def in_transition_row_cases)
  have fr: "failure_reason ''delivered'' three_rows 9 = OrderNotFound"
    by (simp add: failure_reason_def three_rows_def findById_def)
  have g: "fold (guarded_update t1 ''delivered'') [1, 9, 2] three_rows
      = [(sample_order 1 ''sended'' 100)\<lparr>status := ''delivered'', updatedAt := t1\<rparr>,
         (sample_order 2 ''in-transit'' 200)\<lparr>status := ''delivered'', updatedAt := t1\<rparr>]"
    by (simp add: guarded_update_eq[OF s] advance_ok_def three_rows_def findById_def
        in_transition_row_cases updateStatus_result status_enum_def set_status_def)
  from bulkUpdateStatus_report[OF n s, of three_rows t1]
  obtain rows' results where
    "bulkUpdateStatus three_rows t1 (Some [1, 9, 2]) (Some ''delivered'') = (rows', Inr results)"
    "rows' = fold (guarded_update t1 ''delivered'') [1, 9, 2] three_rows"
    "successful results = filter (advance_ok ''delivered'' three_rows) [1, 9, 2]"
    "failed results = map (\<lambda>j. (j, failure_reason ''delivered'' three_rows j))
                                    (filter (\<lambda>j. \<not> advance_ok ''delivered'' three_rows j) [1, 9, 2])"
    using d by blast
  then show ?thesis using ok fr g by simp
qed

text \<open>
  C6 as stated fails: an empty list of ids, and a target outside the three courier statuses,
  are rejected as a whole, with no report.
\<close>

theorem bulkUpdateStatus_guard_counterexample:
  "bulkUpdateStatus three_rows t1 (Some []) (Some ''delivered'') = (three_rows, Inl OrderIdsRequired)
   \<and> bulkUpdateStatus three_rows t1 (Some [1, 9, 2]) (Some ''pending'') = (three_rows, Inl InvalidStatus)"
  by (simp add: bulkUpdateStatus_def courier_validStatuses_def)

subsection \<open>General status update\<close>






subsection \<open>Delivery timeline\<close>

lemma at_or_beyond_cases:
  "at_or_beyond st ''order-placed'' \<longleftrightarrow> st \<in> set canonical_order"
  "at_or_beyond st ''processed'' \<longleftrightarrow> st \<in> set [''received'', ''issued'', ''sended'', ''in-transit'', ''delivered'']"
  "at_or_beyond st ''sended'' \<longleftrightarrow> st \<in> set [''sended'', ''in-transit'', ''delivered'']"
  "at_or_beyond st ''in-transit'' \<longleftrightarrow> st \<in> set [''in-transit'', ''delivered'']"
  "at_or_beyond st ''delivered'' \<longleftrightarrow> st = ''delivered''"
  by (auto simp: at_or_beyond_def canonical_order_def checkpoint_position_def split: option.splits)

text \<open>
  C8 (as amended). For an existing order the timeline is the sequence of checkpoints
  order-placed, processed, sended, in-transit, delivered. The first is always completed and
  carries the order's \<open>createdAt\<close>; each of the others is completed exactly when the
  order's status is at or beyond it in the canonical ordering, and carries the order's
  \<open>updatedAt\<close> when completed and no date otherwise. For a status of the canonical ordering
  every checkpoint, the first included, is completed exactly when the status is at or beyond
  it.
\<close>

theorem delivery_timeline_checkpoints:
  assumes "findById rows i = Some ord"
  shows "\<exists>tl. getDeliveryTimeline rows i = Inr tl
       \<and> map cp_status tl = [''order-placed'', ''processed'', ''sended'', ''in-transit'', ''delivered'']
       \<and> (\<forall>cp \<in> set tl. cp_completed cp
              \<longleftrightarrow> cp_status cp = ''order-placed'' \<or> at_or_beyond (status ord) (cp_status cp))
       \<and> (status ord \<in> set canonical_order \<longrightarrow>
            (\<forall>cp \<in> set tl. cp_completed cp \<longleftrightarrow> at_or_beyond (status ord) (cp_status cp)))
       \<and> (\<forall>cp \<in> set tl. cp_date cp =
              (if cp_status cp = ''order-placed'' then Some (createdAt ord)
               else if cp_completed cp then Some (updatedAt ord) else None))"
  using assms
  by (simp add: getDeliveryTimeline_def at_or_beyond_cases)


theorem delivery_timeline_checkpoints_witness:
  "\<exists>tl. getDeliveryTimeline [(sample_order 5 ''in-transit'' 100)\<lparr>updatedAt := t1\<rparr>] 5 = Inr tl
     \<and> map cp_status tl = [''order-placed'', ''processed'', ''sended'', ''in-transit'', ''delivered'']
     \<and> map cp_completed tl = [True, True, True, True, False]
     \<and> map cp_date tl = [Some t0, Some t1, Some t1, Some t1, None]"
proof -
  let ?o = "(sample_order 5 ''in-transit'' 100)\<lparr>updatedAt := t1\<rparr>"
  have f: "findById [?o] 5 = Some ?o" by (simp add: findById_def)
  have c: "status ?o \<in> set canonical_order" by (simp add: canonical_order_def)
  from delivery_timeline_checkpoints[OF f]
  obtain tl where tl: "getDeliveryTimeline [?o] 5 = Inr tl"
    and st: "map cp_status tl = [''order-placed'', ''processed'', ''sended'', ''in-transit'', ''delivered'']"
    and co: "status ?o \<in> set canonical_order \<longrightarrow>
            (\<forall>cp \<in> set tl. cp_completed cp \<longleftrightarrow> at_or_beyond (status ?o) (cp_status cp))"
    and da: "\<forall>cp \<in> set tl. cp_date cp =
              (if cp_status cp = ''order-placed'' then Some (createdAt ?o)
               else if cp_completed cp then Some (updatedAt ?o) else None)"
    by (elim exE conjE)
  from st obtain a b c d e where l: "tl = [a, b, c, d, e]"
    by (auto simp: map_eq_Cons_conv)
  have cr: "createdAt ?o = t0" "updatedAt ?o = t1" by (simp_all add: sample_order_def)
  show ?thesis using tl st co[rule_format, OF c] da unfolding l
    by (simp add: at_or_beyond_cases canonical_order_def cr)
qed

text \<open>
  C8 as stated fails: the completed checkpoint order-placed carries \<open>createdAt\<close>, not
  \<open>updatedAt\<close>.
\<close>

theorem timeline_placed_date_counterexample:
  "getDeliveryTimeline [(sample_order 5 ''in-transit'' 100)\<lparr>updatedAt := t1\<rparr>] 5
     = Inr [\<lparr>cp_status = ''order-placed'', cp_label = ''Order Placed'', cp_date = Some t0, cp_completed = True\<rparr>,
            \<lparr>cp_status = ''processed'', cp_label = ''Order Processed'', cp_date = Some t1, cp_completed = True\<rparr>,
            \<lparr>cp_status = ''sended'', cp_label = ''Sent to Courier'', cp_date = Some t1, cp_completed = True\<rparr>,
            \<lparr>cp_status = ''in-transit'', cp_label = ''In Transit'', cp_date = Some t1, cp_completed = True\<rparr>,
            \<lparr>cp_status = ''delivered'', cp_label = ''Delivered'', cp_date = None, cp_completed = False\<rparr>]
   \<and> updatedAt ((sample_order 5 ''in-transit'' 100)\<lparr>updatedAt := t1\<rparr>) = t1
   \<and> Some t0 \<noteq> Some t1"
  by (simp add: getDeliveryTimeline_def findById_def sample_order_def t0_def t1_def)

subsection \<open>Deleting an order\<close>

text \<open>
  C10. For every table and every id, \<open>delete\<close> returns \<open>True\<close>, whether or not a row has
  that id, and afterwards no row has it.
\<close>

theorem delete_returns_true:
  "snd (delete rows i) = True \<and> findById (fst (delete rows i)) i = None"
  by (induction rows) (auto simp: delete_def findById_def)

theorem delete_returns_true_witness:
  "snd (delete [sample_order 1 ''pending'' 100] 1) = True
   \<and> snd (delete [sample_order 1 ''pending'' 100] 2) = True
   \<and> fst (delete [sample_order 1 ''pending'' 100] 2) = [sample_order 1 ''pending'' 100]
   \<and> fst (delete [sample_order 1 ''pending'' 100] 1) = []"
  using delete_returns_true[of "[sample_order 1 ''pending'' 100]" 1]
    delete_returns_true[of "[sample_order 1 ''pending'' 100]" 2]
  by (simp add: delete_def)

subsection \<open>Mobile-number validation\<close>
















subsection \<open>Dashboard statistics\<close>

lemma sum_case_count:
  "sum_case c rows = (if rows = [] then None else Some (int (length (filter c rows))))"
proof -
  have a: "list_all (\<lambda>v. v = None) (map (\<lambda>r. Some (if c r then 1 else 0 :: int)) rows) \<longleftrightarrow> rows = []"
    by (cases rows) simp_all
  have b: "sum_list (map (\<lambda>v. case v of None \<Rightarrow> 0 | Some x \<Rightarrow> x) (map (\<lambda>r. Some (if c r then 1 else 0 :: int)) rows))
             = int (length (filter c rows))"
    by (induction rows) simp_all
  show ?thesis unfolding sum_case_def sql_sum_def using a b by simp
qed

lemma sql_sum_amounts:
  "sql_sum (map total_amount rows) =
     (if list_all (\<lambda>r. total_amount r = None) rows then None
      else Some (sum_list (map amount_of rows)))"
  unfolding amount_of_def[abs_def] by (simp add: sql_sum_def list_all_iff comp_def)

lemma getDashboardStats_nonempty:
  assumes "rows \<noteq> []" and "\<exists>r \<in> set rows. total_amount r \<noteq> None"
  shows "total_revenue (getDashboardStats rows curdate) = Some (sum_list (map amount_of rows))"
    and "today (getDashboardStats rows curdate)
           = Some (int (length (filter (\<lambda>r. DATE (createdAt r) = curdate) rows)))"
    and "courier (getDashboardStats rows curdate)
           = Some (int (length (filter (\<lambda>r. status r \<in> {''sended'', ''in-transit'', ''delivered''}) rows)))"
    and "total (getDashboardStats rows curdate) = int (length rows)"
  using assms
  by (auto simp: getDashboardStats_def stats_query_def sum_case_count sql_sum_amounts list_all_iff)

lemma getDashboardStats_example:
  "total_revenue (getDashboardStats same_day_rows (2024, 1, 4)) = Some 600"
  "today (getDashboardStats same_day_rows (2024, 1, 4)) = Some 3"
  "courier (getDashboardStats same_day_rows (2024, 1, 4)) = Some 1"
  by (simp_all add: getDashboardStats_def stats_query_def sum_case_def sql_sum_def same_day_rows_def
      sample_order_def DATE_def t0_def)

text \<open>
  C4, evaluated where the code departs from it. Over the empty table the sum of the amounts
  is 0 and no order was created today, but \<open>getDashboardStats\<close> reports \<^verbatim>\<open>NULL\<close> for
  the revenue, for today's count and for the courier bucket: the aggregate query yields one
  row of \<^verbatim>\<open>NULL\<close> sums, so the fallback to zeros is never taken. On every table with
  an order that has an amount the three fields are as claimed
  (\<open>getDashboardStats_nonempty\<close>, \<open>getDashboardStats_example\<close>).
\<close>

theorem getDashboardStats_empty_table:
  "total_revenue (getDashboardStats [] (2024, 1, 4)) = None
   \<and> today (getDashboardStats [] (2024, 1, 4)) = None
   \<and> courier (getDashboardStats [] (2024, 1, 4)) = None
   \<and> sum_list (map amount_of []) = 0
   \<and> length (filter (\<lambda>r. DATE (createdAt r) = (2024, 1, 4)) []) = 0"
  by (simp add: getDashboardStats_def stats_query_def sum_case_def sql_sum_def)

text \<open>
  C5, evaluated where the code departs from it. Over the empty table the statistics that
  \<open>getStats\<close> answers with have \<^verbatim>\<open>NULL\<close> in every field but the total. The route of
  the database server formats the same statistics to zeros.
\<close>

theorem getStats_empty_table_null:
  "getStats [] (2024, 1, 4)
     = \<lparr>total = 0, pending = None, received = None, issued = None, courier = None,
        today = None, monthly = None, total_revenue = None\<rparr>
   \<and> get_dashboard_stats [] (2024, 1, 4)
     = \<lparr>f_total = 0, f_pending = 0, f_received = 0, f_issued = 0, f_courier = 0,
        f_today = 0, f_monthly = 0\<rparr>
   \<and> analytics_totalRevenue [] (2024, 1, 4) = 0"
  by (simp add: getStats_def getDashboardStats_def stats_query_def sum_case_def sql_sum_def
      get_dashboard_stats_def or_zero_def analytics_totalRevenue_def)

lemma get_dashboard_stats_counts:
  "f_today (get_dashboard_stats rows curdate)
     = int (length (filter (\<lambda>r. DATE (createdAt r) = curdate) rows))"
  "f_courier (get_dashboard_stats rows curdate)
     = int (length (filter (\<lambda>r. status r \<in> {''sended'', ''in-transit'', ''delivered''}) rows))"
  "f_total (get_dashboard_stats rows curdate) = int (length rows)"
  by (auto simp: get_dashboard_stats_def getDashboardStats_def stats_query_def sum_case_count or_zero_def)

lemma analytics_totalRevenue_sum:
  "analytics_totalRevenue rows curdate = sum_list (map amount_of rows)"
proof -
  have "list_all (\<lambda>r. total_amount r = None) rows \<Longrightarrow> sum_list (map amount_of rows) = 0"
    by (induction rows) (simp_all add: amount_of_def)
  then show ?thesis
    by (auto simp: analytics_totalRevenue_def getDashboardStats_def stats_query_def sql_sum_amounts or_zero_def)
qed


text \<open>The statistics of the in-memory server count today's orders the same way; their
  courier bucket leaves delivered orders out, and they carry no revenue.\<close>

lemma mem_dashboard_stats_counts:
  "m_today (mem_dashboard_stats orders now)
     = length (filter (\<lambda>x. DATE (mem_createdAt x) = DATE now) orders)"
  "m_courier (mem_dashboard_stats orders now)
     = length (filter (\<lambda>x. mem_status x \<in> {''sended'', ''in-transit''}) orders)"
  by (simp_all add: mem_dashboard_stats_def insert_commute)

lemma mem_dashboard_stats_example:
  "m_courier (mem_dashboard_stats
      [\<lparr>mem_id = ''1'', mem_order_id = ''ORD2024001'', mem_fullName = ''Anil Silva'',
        mem_address = ''321 Temple Road, Matara'', mem_mobile = ''94701234570'',
        mem_product = ''Herbal Cream'', mem_product_id = Some ''PROD001'',
        mem_product_name = Some ''NIRVAAN 5KG'', mem_quantity = ''2'',
        mem_status = ''delivered'', mem_total_amount = Some 20000, mem_createdAt = t0\<rparr>] t0) = 0"
  by (simp add: mem_dashboard_stats_def)

subsection \<open>Order creation\<close>



































end
